theory Spec2Isabelle
  imports Complex_Main
begin

section \<open>Mav Map: token gate, map surface and search\<close>

text \<open>
  The repository is a React front end of three components: \<open>Index\<close> (the token gate),
  \<open>MapboxTokenInput\<close> (the token form) and \<open>MapContainer\<close> (the map surface and the
  search form). Their state, the browser's store entry, the notifications and the one map
  instance are gathered in the record \<open>app\<close>; every handler of the source is a function
  from \<open>app\<close> to \<open>app\<close>.

  JavaScript numbers are modelled as \<open>real\<close>: the arithmetic of the source is exact there,
  and rounding of IEEE doubles is not modelled. Strings are lists of 8-bit characters,
  each standing for one code unit below 256.
\<close>

subsection \<open>Strings of the source language\<close>

text \<open>The white space that \<open>String.prototype.trim\<close> removes, among the code units below 256.\<close>

definition is_whitespace :: "char \<Rightarrow> bool" where
  "is_whitespace c =
     (c \<in> set [CHR 0x09, CHR 0x0A, CHR 0x0B, CHR 0x0C, CHR 0x0D, CHR 0x20, CHR 0xA0])"

definition trim :: "string \<Rightarrow> string" where
  "trim s = rev (dropWhile is_whitespace (rev (dropWhile is_whitespace s)))"

definition startsWith :: "string \<Rightarrow> string \<Rightarrow> bool" where
  "startsWith p s = (take (length p) s = p)"

text \<open>\<open>s.includes(sub)\<close>: \<open>sub\<close> occurs in \<open>s\<close> as a contiguous run.\<close>

fun includes_str :: "string \<Rightarrow> string \<Rightarrow> bool" where
  "includes_str [] sub = (sub = [])"
| "includes_str (c # cs) sub = (startsWith sub (c # cs) \<or> includes_str cs sub)"

subsection \<open>The map instance of the mapping library\<close>

record lnglat =
  lng :: real
  lat :: real

text \<open>The options object passed to \<open>easeTo\<close> and \<open>flyTo\<close>; a field the call omits is \<open>None\<close>.\<close>

record camera_options =
  to_center :: lnglat
  to_zoom :: "real option"
  to_pitch :: "real option"
  duration :: nat
  easing :: "(real \<Rightarrow> real) option"

datatype camera_call = EaseTo camera_options | FlyTo camera_options | ZoomIn | ZoomOut

record marker =
  marker_color :: string
  marker_lnglat :: lnglat
  popup_html :: string

record fog_options =
  fog_color :: string
  fog_high_color :: string
  fog_horizon_blend :: real

datatype control = NavigationControl bool string

record mapbox_map =
  style :: string
  projection :: string
  zoom :: real
  center :: lnglat
  pitch :: real
  controls :: "control list"
  fog :: "fog_options option"
  markers :: "marker list"
  calls :: "camera_call list"
  removed :: bool

text \<open>
  A camera transition is recorded in \<open>calls\<close>, and the camera fields take the values the
  transition ends in; the frames in between belong to the library. So does what a call
  on an instance that has been removed would do: here it is recorded like any other. The
  map view, where the handlers that use the instance are invoked from, always holds an
  instance that has not been removed (\<open>reachable_map_view\<close> below).
\<close>

definition camera_move :: "camera_options \<Rightarrow> mapbox_map \<Rightarrow> mapbox_map" where
  "camera_move opts m =
     m\<lparr>center := to_center opts,
       zoom := (case to_zoom opts of None \<Rightarrow> zoom m | Some z \<Rightarrow> z),
       pitch := (case to_pitch opts of None \<Rightarrow> pitch m | Some p \<Rightarrow> p)\<rparr>"

definition easeTo :: "camera_options \<Rightarrow> mapbox_map \<Rightarrow> mapbox_map" where
  "easeTo opts m = camera_move opts (m\<lparr>calls := calls m @ [EaseTo opts]\<rparr>)"

definition flyTo :: "camera_options \<Rightarrow> mapbox_map \<Rightarrow> mapbox_map" where
  "flyTo opts m = camera_move opts (m\<lparr>calls := calls m @ [FlyTo opts]\<rparr>)"

text \<open>
  \<open>map.zoomIn()\<close> and \<open>map.zoomOut()\<close> take no argument: the library moves the zoom by one
  level. That it keeps the zoom within its own range is not modelled.
\<close>

definition map_zoomIn :: "mapbox_map \<Rightarrow> mapbox_map" where
  "map_zoomIn m = m\<lparr>calls := calls m @ [ZoomIn], zoom := zoom m + 1\<rparr>"

definition map_zoomOut :: "mapbox_map \<Rightarrow> mapbox_map" where
  "map_zoomOut m = m\<lparr>calls := calls m @ [ZoomOut], zoom := zoom m - 1\<rparr>"

definition addMarker :: "marker \<Rightarrow> mapbox_map \<Rightarrow> mapbox_map" where
  "addMarker k m = m\<lparr>markers := markers m @ [k]\<rparr>"

text \<open>\<open>new mapboxgl.Map({...})\<close> with the configuration of \<open>MapContainer\<close>.\<close>

definition new_Map :: mapbox_map where
  "new_Map =
     \<lparr>style = ''mapbox://styles/mapbox/dark-v11'', projection = ''globe'',
      zoom = 1.5, center = \<lparr>lng = 30, lat = 15\<rparr>, pitch = 45,
      controls = [], fog = None, markers = [], calls = [], removed = False\<rparr>"

subsection \<open>The application state\<close>

datatype toast = Success string | Error string | Info string

record request =
  req_query :: string
  req_access_token :: string
  req_limit :: nat

text \<open>
  \<open>localStorage\<close> holds the one key \<open>mavmap-mapbox-token\<close>. \<open>mapboxToken\<close> is the state of
  \<open>Index\<close>, passed unchanged as the property of \<open>MapContainer\<close>; \<open>token\<close> and \<open>showToken\<close>
  are the state of \<open>MapboxTokenInput\<close>; the fields from \<open>searchQuery\<close> to \<open>isMapLoaded\<close> are
  the state of \<open>MapContainer\<close>, \<open>map_current\<close> and \<open>mapContainer_current\<close> its two refs (the
  second one only as attached or not), and \<open>userInteracting\<close> the variable of the closure
  of its effect. \<open>last_deps\<close> and \<open>has_cleanup\<close> are what React keeps for that effect: the
  dependencies of its last run and whether that run returned a cleanup. \<open>maps_created\<close>
  and \<open>maps_removed\<close> count the calls of the constructor and of \<open>remove\<close>.
\<close>

record app =
  localStorage :: "string option"
  toasts :: "toast list"
  requests :: "request list"
  accessToken :: string
  mapboxToken :: string
  token :: string
  showToken :: bool
  searchQuery :: string
  isSpinning :: bool
  mapError :: string
  isMapLoaded :: bool
  map_current :: "mapbox_map option"
  mapContainer_current :: bool
  userInteracting :: bool
  last_deps :: "(string \<times> bool \<times> string) option"
  has_cleanup :: bool
  maps_created :: nat
  maps_removed :: nat

definition toast_add :: "toast \<Rightarrow> app \<Rightarrow> app" where
  "toast_add t s = s\<lparr>toasts := toasts s @ [t]\<rparr>"

text \<open>\<open>map.current?.f(...)\<close>: nothing happens while the ref is null.\<close>

definition with_map :: "(mapbox_map \<Rightarrow> mapbox_map) \<Rightarrow> app \<Rightarrow> app" where
  "with_map f s = s\<lparr>map_current := map_option f (map_current s)\<rparr>"

subsection \<open>Rotation\<close>

definition secondsPerRevolution :: real where "secondsPerRevolution = 240"
definition maxSpinZoom :: real where "maxSpinZoom = 5"
definition slowSpinZoom :: real where "slowSpinZoom = 3"

text \<open>The value of \<open>distancePerSecond\<close> when the pan is issued, as a function of the zoom.\<close>

definition distancePerSecond :: "real \<Rightarrow> real" where
  "distancePerSecond z =
     (let d = 360 / secondsPerRevolution in
      if z > slowSpinZoom
      then d * ((maxSpinZoom - z) / (maxSpinZoom - slowSpinZoom))
      else d)"

definition spinGlobe :: "app \<Rightarrow> app" where
  "spinGlobe s =
     (case map_current s of
        None \<Rightarrow> s
      | Some m \<Rightarrow>
          if isSpinning s \<and> \<not> userInteracting s \<and> zoom m < maxSpinZoom
          then s\<lparr>map_current := Some (easeTo
                 \<lparr>to_center = (center m)\<lparr>lng := lng (center m) - distancePerSecond (zoom m)\<rparr>,
                  to_zoom = None, to_pitch = None, duration = 1000,
                  easing = Some (\<lambda>n. n)\<rparr> m)\<rparr>
          else s)"

subsection \<open>The map surface: the effect of \<open>MapContainer\<close> and the handlers it registers\<close>

definition msg_invalid_format :: string where
  "msg_invalid_format =
     ''Invalid Mapbox token format. Token should start with '' @ [CHR 0x22] @ ''pk.'' @ [CHR 0x22]"

definition msg_unauthorized :: string where
  "msg_unauthorized = ''Invalid Mapbox token. Please check your token and try again.''"

definition msg_network :: string where
  "msg_network = ''Failed to load map. Please check your internet connection.''"

text \<open>
  The body of the effect. The handlers it registers are the functions \<open>on_...\<close> below; the
  closure starts with \<open>userInteracting = false\<close>, and a run that reaches the end returns the
  cleanup.
\<close>

definition MapContainer_useEffect :: "app \<Rightarrow> app" where
  "MapContainer_useEffect s =
     (if \<not> mapContainer_current s \<or> mapboxToken s = [] then s
      else if \<not> startsWith ''pk.'' (mapboxToken s) then s\<lparr>mapError := msg_invalid_format\<rparr>
      else spinGlobe
        (s\<lparr>accessToken := mapboxToken s,
           map_current := Some (new_Map\<lparr>controls := [NavigationControl True ''top-right'']\<rparr>),
           maps_created := Suc (maps_created s),
           userInteracting := False,
           has_cleanup := True\<rparr>))"

text \<open>The cleanup: \<open>map.current?.remove()\<close>. The ref keeps pointing to the removed instance.\<close>

definition MapContainer_cleanup :: "app \<Rightarrow> app" where
  "MapContainer_cleanup s =
     (case map_current s of
        None \<Rightarrow> s
      | Some m \<Rightarrow> s\<lparr>map_current := Some (m\<lparr>removed := True\<rparr>),
                    maps_removed := Suc (maps_removed s)\<rparr>)"

text \<open>
  The \<open>error\<close> event carries \<open>e.error?.message\<close>: \<open>None\<close> when the error or its message is
  missing, in which case both \<open>includes\<close> tests are skipped and the condition is false.
\<close>

definition on_error :: "string option \<Rightarrow> app \<Rightarrow> app" where
  "on_error message s =
     (if (case message of None \<Rightarrow> False
          | Some t \<Rightarrow> includes_str t ''Unauthorized'' \<or> includes_str t ''Invalid Token'')
      then s\<lparr>mapError := msg_unauthorized\<rparr>
      else s\<lparr>mapError := msg_network\<rparr>)"

text \<open>The last four bytes of the notification are the UTF-8 encoding of the globe sign.\<close>

definition on_load :: "app \<Rightarrow> app" where
  "on_load s =
     toast_add (Success (''Mav Map initialized! '' @ [CHR 0xF0, CHR 0x9F, CHR 0x8C, CHR 0x8D]))
       (s\<lparr>isMapLoaded := True, mapError := []\<rparr>)"

definition on_style_load :: "app \<Rightarrow> app" where
  "on_style_load s =
     with_map (\<lambda>m. m\<lparr>fog := Some \<lparr>fog_color = ''rgb(15, 23, 42)'',
        fog_high_color = ''rgb(30, 41, 59)'', fog_horizon_blend = 0.2\<rparr>\<rparr>) s"

definition on_mousedown :: "app \<Rightarrow> app" where
  "on_mousedown s = s\<lparr>userInteracting := True\<rparr>"

definition on_dragstart :: "app \<Rightarrow> app" where
  "on_dragstart s = s\<lparr>userInteracting := True\<rparr>"

definition on_mouseup :: "app \<Rightarrow> app" where
  "on_mouseup s = spinGlobe (s\<lparr>userInteracting := False\<rparr>)"

definition on_touchend :: "app \<Rightarrow> app" where
  "on_touchend s = spinGlobe (s\<lparr>userInteracting := False\<rparr>)"

definition on_moveend :: "app \<Rightarrow> app" where
  "on_moveend s = spinGlobe s"

subsection \<open>Search\<close>

record feature =
  feature_center :: lnglat
  place_name :: string

text \<open>
  What the two \<open>await\<close>s of \<open>handleSearch\<close> deliver: \<open>Rejected\<close> when \<open>fetch\<close> or
  \<open>response.json()\<close> throws, \<open>Resolved fs\<close> when the body parses to an object whose
  \<open>features\<close> is missing (\<open>None\<close>) or is the list \<open>fs\<close>.
\<close>

datatype geocoding_result = Rejected | Resolved "feature list option"

definition handleSearch_fetch :: "app \<Rightarrow> app" where
  "handleSearch_fetch s =
     s\<lparr>requests := requests s @
        [\<lparr>req_query = searchQuery s, req_access_token = mapboxToken s, req_limit = 1\<rparr>]\<rparr>"

text \<open>
  The rest of the \<open>try\<close> block and the \<open>catch\<close>. With the ref null, \<open>flyTo\<close> is skipped and
  \<open>addTo(map.current!)\<close> throws inside the \<open>try\<close>, which the \<open>catch\<close> reports.
\<close>

definition handleSearch_resume :: "geocoding_result \<Rightarrow> app \<Rightarrow> app" where
  "handleSearch_resume r s =
     (case r of
        Rejected \<Rightarrow> toast_add (Error ''Search failed'') s
      | Resolved None \<Rightarrow> toast_add (Error ''Location not found'') s
      | Resolved (Some []) \<Rightarrow> toast_add (Error ''Location not found'') s
      | Resolved (Some (f # fs)) \<Rightarrow>
          (case map_current s of
             None \<Rightarrow> toast_add (Error ''Search failed'') s
           | Some m \<Rightarrow>
               toast_add (Success (''Found: '' @ place_name f))
                 (s\<lparr>map_current := Some
                    (addMarker
                       \<lparr>marker_color = ''#0ea5e9'', marker_lnglat = feature_center f,
                        popup_html = ''<div class='' @ [CHR 0x22] @ ''p-2 text-sm font-medium''
                          @ [CHR 0x22] @ ''>'' @ place_name f @ ''</div>''\<rparr>
                       (flyTo \<lparr>to_center = feature_center f, to_zoom = Some 12,
                               to_pitch = None, duration = 2000, easing = None\<rparr> m))\<rparr>)))"

definition handleSearch :: "geocoding_result \<Rightarrow> app \<Rightarrow> app" where
  "handleSearch r s =
     (if trim (searchQuery s) = [] \<or> mapboxToken s = [] then s
      else handleSearch_resume r (handleSearch_fetch s))"

definition setSearchQuery :: "string \<Rightarrow> app \<Rightarrow> app" where
  "setSearchQuery q s = s\<lparr>searchQuery := q\<rparr>"

subsection \<open>The buttons of the map view\<close>

definition zoomIn :: "app \<Rightarrow> app" where
  "zoomIn s = with_map map_zoomIn s"

definition zoomOut :: "app \<Rightarrow> app" where
  "zoomOut s = with_map map_zoomOut s"

definition resetView :: "app \<Rightarrow> app" where
  "resetView s =
     with_map (flyTo \<lparr>to_center = \<lparr>lng = 30, lat = 15\<rparr>, to_zoom = Some 1.5,
                      to_pitch = Some 45, duration = 2000, easing = None\<rparr>)
       (s\<lparr>isSpinning := True\<rparr>)"

definition toggleSpin :: "app \<Rightarrow> app" where
  "toggleSpin s =
     toast_add (Info (if isSpinning s then ''Globe rotation paused'' else ''Globe rotation resumed''))
       (s\<lparr>isSpinning := \<not> isSpinning s\<rparr>)"

subsection \<open>The token gate\<close>

definition setToken :: "string \<Rightarrow> app \<Rightarrow> app" where
  "setToken v s = s\<lparr>token := v\<rparr>"

definition handleTokenSubmit :: "string \<Rightarrow> app \<Rightarrow> app" where
  "handleTokenSubmit t s = s\<lparr>mapboxToken := t\<rparr>"

definition handleSubmit :: "app \<Rightarrow> app" where
  "handleSubmit s =
     (if trim (token s) = [] then toast_add (Error ''Please enter a valid Mapbox token'') s
      else toast_add (Success ''Mapbox token saved! Initializing Mav Map...'')
             (handleTokenSubmit (token s) (s\<lparr>localStorage := Some (token s)\<rparr>)))"

text \<open>The effect of \<open>Index\<close>, run once when the page loads.\<close>

definition Index_useEffect :: "app \<Rightarrow> app" where
  "Index_useEffect s =
     (case localStorage s of
        None \<Rightarrow> s
      | Some storedToken \<Rightarrow> if storedToken = [] then s else s\<lparr>mapboxToken := storedToken\<rparr>)"

subsection \<open>What is on the screen\<close>

datatype view = TokenInputView | TokenRequiredView | MapErrorView string | MapView

definition MapContainer_render :: "app \<Rightarrow> view" where
  "MapContainer_render s =
     (if mapboxToken s = [] then TokenRequiredView
      else if mapError s \<noteq> [] then MapErrorView (mapError s)
      else MapView)"

definition Index_render :: "app \<Rightarrow> view" where
  "Index_render s = (if mapboxToken s = [] then TokenInputView else MapContainer_render s)"

subsection \<open>React: rendering after a handler has run\<close>

text \<open>
  The dependency list of the effect of \<open>MapContainer\<close> is
  \<open>[mapboxToken, isSpinning, mapError]\<close>. After a render React attaches the ref
  \<open>mapContainer\<close> when the map view is rendered and detaches it otherwise; it then
  compares the dependencies with those of the last run of the effect and, when they
  differ (or the component has just been mounted), runs the cleanup the last run returned
  and then the effect. While \<open>Index\<close> shows the token form, \<open>MapContainer\<close> is not mounted.
\<close>

definition deps :: "app \<Rightarrow> string \<times> bool \<times> string" where
  "deps s = (mapboxToken s, isSpinning s, mapError s)"

definition commit :: "app \<Rightarrow> app" where
  "commit s =
     (if mapboxToken s = [] then s
      else
        let s1 = s\<lparr>mapContainer_current := (MapContainer_render s = MapView)\<rparr> in
        if last_deps s1 = Some (deps s1) then s1
        else MapContainer_useEffect
               ((if has_cleanup s1 then MapContainer_cleanup s1 else s1)
                  \<lparr>last_deps := Some (deps s1), has_cleanup := False\<rparr>))"

text \<open>
  The effect sets state in one branch only (the format check), so a second render may
  follow the first; \<open>commit_settles\<close> below shows that a third one changes nothing.
\<close>

definition rerender :: "app \<Rightarrow> app" where
  "rerender s = commit (commit s)"

text \<open>Loading the page with a given content of the store.\<close>

definition init_app :: "string option \<Rightarrow> app" where
  "init_app st =
     \<lparr>localStorage = st, toasts = [], requests = [], accessToken = [],
      mapboxToken = [], token = [], showToken = False,
      searchQuery = [], isSpinning = True, mapError = [], isMapLoaded = False,
      map_current = None, mapContainer_current = False, userInteracting = False,
      last_deps = None, has_cleanup = False, maps_created = 0, maps_removed = 0\<rparr>"

definition page_load :: "string option \<Rightarrow> app" where
  "page_load st = rerender (Index_useEffect (init_app st))"

text \<open>Typing a candidate into the token form and submitting it.\<close>

definition submitToken :: "string \<Rightarrow> app \<Rightarrow> app" where
  "submitToken candidate s = rerender (handleSubmit (setToken candidate s))"

text \<open>The button of the error view: \<open>removeItem\<close>, then the page is loaded again.\<close>

definition enterNewToken :: "app \<Rightarrow> app" where
  "enterNewToken s = page_load None"

subsection \<open>Events\<close>

text \<open>
  What can happen after the page has loaded: the user types and submits in the two forms
  and clicks the buttons, a geocoding response arrives, and the map instance emits the
  events the effect has registered handlers for. Each event runs its handler, and React
  renders afterwards. A state is reachable when a page load followed by such events leads
  to it; no event is ever assumed not to happen, so every state the running application
  can be in is among them.
\<close>

datatype event =
    TypeToken string | SubmitForm
  | TypeQuery string | SubmitSearch geocoding_result | SearchResponse geocoding_result
  | ClickZoomIn | ClickZoomOut | ClickReset | ClickToggle
  | EngineError "string option" | EngineLoad | StyleLoad
  | MouseDown | DragStart | MouseUp | TouchEnd | MoveEnd

fun handler :: "event \<Rightarrow> app \<Rightarrow> app" where
  "handler (TypeToken v) = setToken v"
| "handler SubmitForm = handleSubmit"
| "handler (TypeQuery q) = setSearchQuery q"
| "handler (SubmitSearch r) = handleSearch r"
| "handler (SearchResponse r) = handleSearch_resume r"
| "handler ClickZoomIn = zoomIn"
| "handler ClickZoomOut = zoomOut"
| "handler ClickReset = resetView"
| "handler ClickToggle = toggleSpin"
| "handler (EngineError e) = on_error e"
| "handler EngineLoad = on_load"
| "handler StyleLoad = on_style_load"
| "handler MouseDown = on_mousedown"
| "handler DragStart = on_dragstart"
| "handler MouseUp = on_mouseup"
| "handler TouchEnd = on_touchend"
| "handler MoveEnd = on_moveend"

inductive reachable :: "app \<Rightarrow> bool" where
  load: "reachable (page_load st)"
| event: "reachable s \<Longrightarrow> reachable (rerender (handler e s))"

text \<open>
  The ref holds an instance that has not been removed; the map surface is working when in
  addition the last run of the effect went through to its end under a token that starts
  with \<open>pk.\<close>. The condition every reachable state meets: the effect has run for the
  current dependencies, and where no error is set the map surface is working.
\<close>

definition live :: "app \<Rightarrow> bool" where
  "live s = (case map_current s of None \<Rightarrow> False | Some m \<Rightarrow> \<not> removed m)"

definition working :: "app \<Rightarrow> bool" where
  "working s = (live s \<and> has_cleanup s \<and> startsWith ''pk.'' (mapboxToken s))"

definition settled :: "app \<Rightarrow> bool" where
  "settled s =
     ((mapboxToken s = [] \<longrightarrow> last_deps s = None)
      \<and> (mapboxToken s \<noteq> [] \<longrightarrow>
           last_deps s = Some (deps s) \<and> (mapError s = [] \<longrightarrow> working s)))"

subsection \<open>Notions the properties are stated with\<close>

text \<open>
  The angular speed as the specification words it: the base rate of 360 degrees in 240
  seconds up to zoom 3, the base rate scaled by \<open>(5 - z) / (5 - 3)\<close> between zoom 3 and
  zoom 5, and nothing from zoom 5 on.
\<close>

definition spec_rate :: "real \<Rightarrow> real" where
  "spec_rate z =
     (if z \<le> 3 then 360 / 240
      else if z < 5 then (360 / 240) * ((5 - z) / (5 - 3))
      else 0)"

text \<open>The camera transitions commanded, and the longitude travelled, between two states.\<close>

definition new_calls :: "app \<Rightarrow> app \<Rightarrow> camera_call list" where
  "new_calls s s' =
     (case (map_current s, map_current s') of
        (Some m, Some m') \<Rightarrow> drop (length (calls m)) (calls m')
      | _ \<Rightarrow> [])"

definition lng_displacement :: "app \<Rightarrow> app \<Rightarrow> real" where
  "lng_displacement s s' =
     (case (map_current s, map_current s') of
        (Some m, Some m') \<Rightarrow> lng (center m) - lng (center m')
      | _ \<Rightarrow> 0)"

text \<open>
  States to try the properties on, all under the token \<open>pk.abc\<close>: the map loaded; the
  camera then put at a given zoom; a drag begun.
\<close>

definition loaded :: app where
  "loaded = on_load (page_load (Some ''pk.abc''))"

definition ready_at_zoom :: "real \<Rightarrow> app" where
  "ready_at_zoom z = with_map (\<lambda>m. m\<lparr>zoom := z\<rparr>) loaded"

definition dragging :: app where
  "dragging = on_dragstart loaded"

text \<open>
  The application is waiting for a token: \<open>Index\<close> shows the token form and
  \<open>MapContainer\<close> has never been mounted.
\<close>

definition awaiting_token :: "app \<Rightarrow> bool" where
  "awaiting_token s =
     (mapboxToken s = [] \<and> mapError s = [] \<and> last_deps s = None
      \<and> \<not> has_cleanup s \<and> map_current s = None)"

text \<open>The markers on the map, and the marker \<open>handleSearch\<close> builds for a candidate.\<close>

definition markers_of :: "app \<Rightarrow> marker list" where
  "markers_of s = (case map_current s of None \<Rightarrow> [] | Some m \<Rightarrow> markers m)"

definition search_marker :: "feature \<Rightarrow> marker" where
  "search_marker f =
     \<lparr>marker_color = ''#0ea5e9'', marker_lnglat = feature_center f,
      popup_html = ''<div class='' @ [CHR 0x22] @ ''p-2 text-sm font-medium'' @ [CHR 0x22]
        @ ''>'' @ place_name f @ ''</div>''\<rparr>"

text \<open>Two candidates, and the loaded map with a query typed in.\<close>

definition paris :: feature where
  "paris = \<lparr>feature_center = \<lparr>lng = 2.35, lat = 48.85\<rparr>, place_name = ''Paris, France''\<rparr>"

definition rome :: feature where
  "rome = \<lparr>feature_center = \<lparr>lng = 12.5, lat = 41.9\<rparr>, place_name = ''Rome, Italy''\<rparr>"

definition ready_with_query :: "string \<Rightarrow> app" where
  "ready_with_query q = setSearchQuery q loaded"

text \<open>The text \<open>t\<close> contains \<open>sub\<close> as a substring.\<close>

definition contains :: "string \<Rightarrow> string \<Rightarrow> bool" where
  "contains t sub = (\<exists>p q. t = p @ sub @ q)"


section \<open>Properties\<close>

lemmas string_defs = is_whitespace_def trim_def startsWith_def
lemmas map_defs = camera_move_def easeTo_def flyTo_def addMarker_def new_Map_def
lemmas spin_defs = secondsPerRevolution_def maxSpinZoom_def slowSpinZoom_def
  distancePerSecond_def spinGlobe_def
lemmas react_defs = deps_def commit_def rerender_def MapContainer_render_def
  MapContainer_useEffect_def MapContainer_cleanup_def init_app_def page_load_def
  Index_useEffect_def Index_render_def

lemmas search_defs = handleSearch_def handleSearch_fetch_def handleSearch_resume_def
  setSearchQuery_def toast_add_def

lemmas gate_defs = submitToken_def handleSubmit_def setToken_def handleTokenSubmit_def
  toast_add_def awaiting_token_def

subsection \<open>Strings\<close>

lemma trim_nonempty: "trim c \<noteq> [] \<Longrightarrow> c \<noteq> []"
  by (auto simp: trim_def)

lemma includes_str_iff: "includes_str s sub \<longleftrightarrow> (\<exists>p q. s = p @ sub @ q)"
proof (induction s)
  case Nil
  then show ?case by auto
next
  case (Cons c cs)
  have "startsWith sub (c # cs) \<longleftrightarrow> (\<exists>q. c # cs = sub @ q)"
    unfolding startsWith_def
    by (metis append_eq_conv_conj append_take_drop_id)
  moreover have "(\<exists>p q. c # cs = p @ sub @ q) \<longleftrightarrow>
      (\<exists>q. c # cs = sub @ q) \<or> (\<exists>p q. cs = p @ sub @ q)"
  proof
    assume "\<exists>p q. c # cs = p @ sub @ q"
    then obtain p q where pq: "c # cs = p @ sub @ q" by blast
    show "(\<exists>q. c # cs = sub @ q) \<or> (\<exists>p q. cs = p @ sub @ q)"
    proof (cases p)
      case Nil
      with pq show ?thesis by auto
    next
      case (Cons a p')
      with pq have "cs = p' @ sub @ q" by simp
      then show ?thesis by blast
    qed
  next
    assume "(\<exists>q. c # cs = sub @ q) \<or> (\<exists>p q. cs = p @ sub @ q)"
    then show "\<exists>p q. c # cs = p @ sub @ q"
    proof
      assume "\<exists>q. c # cs = sub @ q"
      then obtain q where "c # cs = [] @ sub @ q" by auto
      then show ?thesis by blast
    next
      assume "\<exists>p q. cs = p @ sub @ q"
      then obtain p q where "c # cs = (c # p) @ sub @ q" by auto
      then show ?thesis by blast
    qed
  qed
  ultimately show ?case using Cons.IH by simp
qed

subsection \<open>What the effect and a render leave alone\<close>

lemma spinGlobe_frame:
  "mapboxToken (spinGlobe s) = mapboxToken s" "isSpinning (spinGlobe s) = isSpinning s"
  "mapError (spinGlobe s) = mapError s" "last_deps (spinGlobe s) = last_deps s"
  "has_cleanup (spinGlobe s) = has_cleanup s" "maps_created (spinGlobe s) = maps_created s"
  "maps_removed (spinGlobe s) = maps_removed s" "localStorage (spinGlobe s) = localStorage s"
  "toasts (spinGlobe s) = toasts s" "requests (spinGlobe s) = requests s"
  "mapContainer_current (spinGlobe s) = mapContainer_current s"
  "userInteracting (spinGlobe s) = userInteracting s"
  "accessToken (spinGlobe s) = accessToken s"
  by (simp_all add: spinGlobe_def split: option.splits)

lemma spinGlobe_map: "(map_current (spinGlobe s) = None) = (map_current s = None)"
  by (simp add: spinGlobe_def split: option.splits)

lemma cleanup_frame:
  "mapboxToken (MapContainer_cleanup s) = mapboxToken s"
  "isSpinning (MapContainer_cleanup s) = isSpinning s"
  "mapError (MapContainer_cleanup s) = mapError s"
  "last_deps (MapContainer_cleanup s) = last_deps s"
  "has_cleanup (MapContainer_cleanup s) = has_cleanup s"
  "maps_created (MapContainer_cleanup s) = maps_created s"
  "localStorage (MapContainer_cleanup s) = localStorage s"
  "toasts (MapContainer_cleanup s) = toasts s"
  "requests (MapContainer_cleanup s) = requests s"
  "mapContainer_current (MapContainer_cleanup s) = mapContainer_current s"
  "userInteracting (MapContainer_cleanup s) = userInteracting s"
  "accessToken (MapContainer_cleanup s) = accessToken s"
  by (simp_all add: MapContainer_cleanup_def split: option.splits)

lemma commit_frame:
  "mapboxToken (commit s) = mapboxToken s" "isSpinning (commit s) = isSpinning s"
  "localStorage (commit s) = localStorage s" "toasts (commit s) = toasts s"
  "requests (commit s) = requests s"
  by (simp_all add: commit_def Let_def MapContainer_useEffect_def spinGlobe_frame cleanup_frame)

lemma commit_last_deps: "mapboxToken s \<noteq> [] \<Longrightarrow> last_deps (commit s) = Some (deps s)"
  by (simp add: commit_def Let_def MapContainer_useEffect_def spinGlobe_frame cleanup_frame deps_def)

lemma commit_container:
  "mapboxToken s \<noteq> [] \<Longrightarrow> mapContainer_current (commit s) = (MapContainer_render s = MapView)"
  by (simp add: commit_def Let_def MapContainer_useEffect_def spinGlobe_frame cleanup_frame)

lemma commit_mapError:
  "mapError (commit s) = mapError s \<or>
   (mapError s = [] \<and> mapError (commit s) = msg_invalid_format)"
  by (simp add: commit_def Let_def MapContainer_useEffect_def spinGlobe_frame cleanup_frame
      MapContainer_render_def)

lemma msg_invalid_format_nonempty: "msg_invalid_format \<noteq> []"
  by (simp add: msg_invalid_format_def)

lemma commit_fixed:
  assumes "mapboxToken s \<noteq> [] \<longrightarrow>
     last_deps s = Some (deps s) \<and> mapContainer_current s = (MapContainer_render s = MapView)"
  shows "commit s = s"
  using assms by (simp add: commit_def deps_def Let_def)

lemma commit_settles: "commit (commit (commit s)) = commit (commit s)"
proof (cases "mapError (commit s) = mapError s")
  case True
  have "commit (commit s) = commit s"
  proof (rule commit_fixed, intro impI conjI)
    assume "mapboxToken (commit s) \<noteq> []"
    then have t: "mapboxToken s \<noteq> []" by (simp add: commit_frame)
    show "last_deps (commit s) = Some (deps (commit s))"
      using t True by (simp add: commit_last_deps deps_def commit_frame)
    show "mapContainer_current (commit s) = (MapContainer_render (commit s) = MapView)"
      using t True by (simp add: commit_container MapContainer_render_def commit_frame)
  qed
  then show ?thesis by simp
next
  case False
  show ?thesis
  proof (rule commit_fixed, intro impI conjI)
    assume "mapboxToken (commit (commit s)) \<noteq> []"
    then have t: "mapboxToken (commit s) \<noteq> []" by (simp add: commit_frame)
    have e: "mapError (commit s) \<noteq> []"
      using False commit_mapError [of s] msg_invalid_format_nonempty by auto
    have "mapError (commit (commit s)) = mapError (commit s)"
      using e commit_mapError [of "commit s"] by auto
    then show "last_deps (commit (commit s)) = Some (deps (commit (commit s)))"
      using t by (simp add: commit_last_deps deps_def commit_frame)
    show "mapContainer_current (commit (commit s)) =
        (MapContainer_render (commit (commit s)) = MapView)"
      using t \<open>mapError (commit (commit s)) = mapError (commit s)\<close>
      by (simp add: commit_container MapContainer_render_def commit_frame)
  qed
qed

lemma awaiting_token_empty: "awaiting_token s \<Longrightarrow> mapboxToken s = []"
  by (simp add: awaiting_token_def)

lemma commit_counts:
  assumes "mapboxToken s \<noteq> []" and "last_deps s \<noteq> Some (deps s)"
  shows "maps_removed (commit s) =
           (if has_cleanup s \<and> map_current s \<noteq> None then Suc (maps_removed s)
            else maps_removed s)"
    and "maps_created (commit s) =
           (if mapError s = [] \<and> startsWith ''pk.'' (mapboxToken s) then Suc (maps_created s)
            else maps_created s)"
  using assms
  by (simp_all add: commit_def Let_def deps_def MapContainer_useEffect_def MapContainer_render_def
      spinGlobe_frame cleanup_frame)
    (simp_all add: MapContainer_cleanup_def split: option.splits)

lemma commit_same_deps:
  assumes "last_deps s = Some (deps s)"
  shows "map_current (commit s) = map_current s" "maps_created (commit s) = maps_created s"
    "maps_removed (commit s) = maps_removed s"
  using assms by (simp_all add: commit_def Let_def deps_def)

lemma rerender_after_effect:
  assumes "mapboxToken s \<noteq> []" and "last_deps s \<noteq> Some (deps s)" and "mapError s = []"
    and "startsWith ''pk.'' (mapboxToken s)"
  shows "rerender s = commit s"
proof -
  have "mapError (commit s) = mapError s"
    using assms
    by (simp add: commit_def Let_def deps_def MapContainer_useEffect_def MapContainer_render_def
        spinGlobe_frame cleanup_frame)
  then have "commit (commit s) = commit s"
    using assms(1)
    by (intro commit_fixed)
      (simp add: commit_last_deps commit_container commit_frame deps_def MapContainer_render_def)
  then show ?thesis by (simp add: rerender_def)
qed

lemma loaded_facts:
  "mapboxToken loaded = ''pk.abc''" "mapError loaded = []" "last_deps loaded = Some (deps loaded)"
  "has_cleanup loaded" "map_current loaded \<noteq> None" "maps_created loaded = 1"
  "maps_removed loaded = 0" "isSpinning loaded"
  by (simp_all add: loaded_def on_load_def toast_add_def react_defs string_defs spin_defs map_defs
      Let_def)

subsection \<open>Every reachable state has run the effect for its dependencies\<close>

lemma spinGlobe_live: "live (spinGlobe s) = live s"
  by (simp add: live_def spinGlobe_def map_defs split: option.splits)

lemma commit_working:
  assumes "mapboxToken s \<noteq> []" and "last_deps s = Some (deps s) \<longrightarrow> working s"
    and "mapError (commit s) = []"
  shows "working (commit s)"
proof (cases "last_deps s = Some (deps s)")
  case True
  then have "commit s = s\<lparr>mapContainer_current := MapContainer_render s = MapView\<rparr>"
    using assms(1) by (simp add: commit_def Let_def deps_def)
  with True assms(2) show ?thesis by (simp add: working_def live_def)
next
  case False
  show ?thesis
    using assms(1,3) False
    by (simp add: commit_def Let_def deps_def MapContainer_useEffect_def MapContainer_render_def
        spinGlobe_frame cleanup_frame spinGlobe_live msg_invalid_format_nonempty working_def
        split: if_splits)
      (simp_all add: live_def new_Map_def)
qed

lemma rerender_settled:
  assumes "mapboxToken s = [] \<longrightarrow> last_deps s = None"
    and "mapboxToken s \<noteq> [] \<and> last_deps s = Some (deps s) \<and> mapError s = [] \<longrightarrow> working s"
  shows "settled (rerender s)"
proof (cases "mapboxToken s = []")
  case True
  then have "rerender s = s" by (simp add: rerender_def commit_def)
  with True assms(1) show ?thesis by (simp add: settled_def)
next
  case False
  let ?c = "commit s"
  have t: "mapboxToken ?c \<noteq> []" "mapboxToken (rerender s) \<noteq> []"
    using False by (simp_all add: rerender_def commit_frame)
  have fp: "commit (rerender s) = rerender s"
    by (simp add: rerender_def commit_settles)
  have d: "last_deps (rerender s) = Some (deps (rerender s))"
    using commit_last_deps [OF t(2)] by (simp add: fp)
  have l: "mapError (rerender s) = [] \<longrightarrow> working (rerender s)"
  proof
    assume e: "mapError (rerender s) = []"
    have e1: "mapError ?c = []"
      using commit_mapError [of ?c] e msg_invalid_format_nonempty
      by (auto simp: rerender_def)
    have e0: "mapError s = []"
      using commit_mapError [of s] e1 msg_invalid_format_nonempty by auto
    have "working ?c"
      using False assms(2) e0 e1 by (intro commit_working) auto
    then have "last_deps ?c = Some (deps ?c) \<longrightarrow> working ?c" by simp
    from commit_working [OF t(1) this] e show "working (rerender s)" by (simp add: rerender_def)
  qed
  show ?thesis using t(2) d l by (simp add: settled_def)
qed

lemma handler_pre:
  assumes "settled s"
  shows "mapboxToken (handler e s) = [] \<longrightarrow> last_deps (handler e s) = None"
    and "mapboxToken (handler e s) \<noteq> [] \<and> last_deps (handler e s) = Some (deps (handler e s))
         \<and> mapError (handler e s) = [] \<longrightarrow> working (handler e s)"
proof -
  show "mapboxToken (handler e s) = [] \<longrightarrow> last_deps (handler e s) = None"
    using assms
    by (cases e)
      (auto simp: settled_def gate_defs search_defs zoomIn_def zoomOut_def resetView_def
        toggleSpin_def with_map_def
        on_error_def on_load_def on_style_load_def on_mousedown_def on_dragstart_def
        on_mouseup_def on_touchend_def on_moveend_def spinGlobe_frame
        dest: trim_nonempty split: geocoding_result.splits option.splits list.splits)
  show "mapboxToken (handler e s) \<noteq> [] \<and> last_deps (handler e s) = Some (deps (handler e s))
         \<and> mapError (handler e s) = [] \<longrightarrow> working (handler e s)"
    using assms
    by (cases e)
      (auto simp: settled_def working_def live_def deps_def gate_defs search_defs zoomIn_def
        zoomOut_def map_zoomIn_def map_zoomOut_def resetView_def toggleSpin_def with_map_def on_error_def on_load_def on_style_load_def on_mousedown_def
        on_dragstart_def on_mouseup_def on_touchend_def on_moveend_def spinGlobe_frame
        spinGlobe_def map_defs msg_unauthorized_def msg_network_def
        split: geocoding_result.splits option.splits list.splits if_splits)
qed

lemma reachable_settled: "reachable s \<Longrightarrow> settled s"
proof (induction rule: reachable.induct)
  case (load st)
  show ?case
    unfolding page_load_def
    by (rule rerender_settled)
      (auto simp: Index_useEffect_def init_app_def split: option.splits)
next
  case (event s e)
  show ?case
    using handler_pre [OF event.IH, of e] by (intro rerender_settled)
qed

lemma reachable_map_view:
  assumes "reachable s" and "Index_render s = MapView"
  shows "mapboxToken s \<noteq> []" and "mapError s = []" and "last_deps s = Some (deps s)"
    and "has_cleanup s" and "startsWith ''pk.'' (mapboxToken s)"
    and "\<exists>m. map_current s = Some m \<and> \<not> removed m"
  using reachable_settled [OF assms(1)] assms(2)
  by (auto simp: settled_def working_def live_def Index_render_def MapContainer_render_def
      split: if_splits option.splits)

lemma handler_frame:
  "last_deps (handler e s) = last_deps s" "maps_created (handler e s) = maps_created s"
  "maps_removed (handler e s) = maps_removed s"
  by (cases e;
      simp add: gate_defs search_defs zoomIn_def zoomOut_def resetView_def toggleSpin_def
        with_map_def
        on_error_def on_load_def on_style_load_def on_mousedown_def on_dragstart_def
        on_mouseup_def on_touchend_def on_moveend_def spinGlobe_frame
        split: geocoding_result.splits option.splits list.splits)+

lemma rerender_same_deps:
  assumes "mapboxToken s \<noteq> [] \<longrightarrow> last_deps s = Some (deps s)"
  shows "map_current (rerender s) = map_current s" "maps_created (rerender s) = maps_created s"
    "maps_removed (rerender s) = maps_removed s"
proof -
  have 1: "commit s = s\<lparr>mapContainer_current :=
      (if mapboxToken s = [] then mapContainer_current s else MapContainer_render s = MapView)\<rparr>"
    using assms by (simp add: commit_def deps_def Let_def)
  have 2: "commit (commit s) = commit s"
    using assms by (intro commit_fixed) (simp add: 1 deps_def MapContainer_render_def)
  show "map_current (rerender s) = map_current s" "maps_created (rerender s) = maps_created s"
    "maps_removed (rerender s) = maps_removed s"
    by (simp_all add: rerender_def 2) (simp_all add: 1)
qed

lemma event_same_deps:
  assumes "reachable s" and "deps (handler e s) = deps s"
  shows "map_current (rerender (handler e s)) = map_current (handler e s)"
    "maps_created (rerender (handler e s)) = maps_created s"
    "maps_removed (rerender (handler e s)) = maps_removed s"
proof -
  have "settled s" using assms(1) by (rule reachable_settled)
  then have "mapboxToken (handler e s) \<noteq> [] \<longrightarrow>
      last_deps (handler e s) = Some (deps (handler e s))"
    using assms(2) by (auto simp: settled_def handler_frame deps_def)
  from rerender_same_deps [OF this]
  show "map_current (rerender (handler e s)) = map_current (handler e s)"
    "maps_created (rerender (handler e s)) = maps_created s"
    "maps_removed (rerender (handler e s)) = maps_removed s"
    by (simp_all add: handler_frame)
qed

lemma page_load_counts:
  assumes "startsWith ''pk.'' t"
  shows "maps_created (page_load (Some t)) = 1" "maps_removed (page_load (Some t)) = 0"
proof -
  let ?s = "Index_useEffect (init_app (Some t))"
  have t: "t \<noteq> []" using assms by (auto simp: startsWith_def)
  then have f: "mapboxToken ?s = t" "last_deps ?s \<noteq> Some (deps ?s)" "mapError ?s = []"
    "\<not> has_cleanup ?s" "maps_created ?s = 0" "maps_removed ?s = 0"
    by (simp_all add: Index_useEffect_def init_app_def)
  have r: "page_load (Some t) = commit ?s"
    unfolding page_load_def using t f assms by (intro rerender_after_effect) simp_all
  show "maps_created (page_load (Some t)) = 1" "maps_removed (page_load (Some t)) = 0"
    using t f(2) assms by (simp_all add: r commit_counts f(1,3-6))
qed

subsection \<open>The states the properties are tried on are reachable\<close>

lemma rerender_fixed:
  assumes "mapboxToken s \<noteq> [] \<longrightarrow>
     last_deps s = Some (deps s) \<and> mapContainer_current s = (MapContainer_render s = MapView)"
  shows "rerender s = s"
proof -
  have "commit s = s" using assms by (rule commit_fixed)
  then show ?thesis by (simp add: rerender_def)
qed

lemma loaded_container: "mapContainer_current loaded" "MapContainer_render loaded = MapView"
  by (simp_all add: loaded_def on_load_def toast_add_def react_defs string_defs spin_defs map_defs
      Let_def)

lemma reachable_loaded: "reachable loaded"
proof -
  have "rerender loaded = loaded"
    by (rule rerender_fixed) (simp add: loaded_facts loaded_container)
  moreover have "reachable (rerender (handler EngineLoad (page_load (Some ''pk.abc''))))"
    by (rule reachable.event) (rule reachable.load)
  ultimately show ?thesis by (simp add: loaded_def)
qed

lemma dragging_facts:
  "mapboxToken dragging = ''pk.abc''" "mapError dragging = []"
  "last_deps dragging = Some (deps dragging)" "isSpinning dragging" "userInteracting dragging"
  "mapContainer_current dragging" "MapContainer_render dragging = MapView"
  using loaded_facts loaded_container
  by (simp_all add: dragging_def on_dragstart_def deps_def MapContainer_render_def)

lemma reachable_dragging: "reachable dragging"
proof -
  have "rerender dragging = dragging"
    by (rule rerender_fixed) (simp add: dragging_facts)
  moreover have "reachable (rerender (handler DragStart loaded))"
    by (rule reachable.event) (rule reachable_loaded)
  ultimately show ?thesis by (simp add: dragging_def)
qed

subsection \<open>A click on the rotation button, render included\<close>

lemma commit_restarts:
  assumes "mapboxToken s \<noteq> []" and "last_deps s \<noteq> Some (deps s)" and "mapError s = []"
    and "startsWith ''pk.'' (mapboxToken s)"
  shows "\<not> userInteracting (commit s)"
  using assms
  by (simp add: commit_def Let_def deps_def MapContainer_useEffect_def MapContainer_render_def
      spinGlobe_frame cleanup_frame)

lemma toggle_event_restarts:
  assumes "reachable s" and "Index_render s = MapView"
  shows "\<not> userInteracting (rerender (handler ClickToggle s))"
    and "isSpinning (rerender (handler ClickToggle s)) = (\<not> isSpinning s)"
    and "maps_created (rerender (handler ClickToggle s)) = Suc (maps_created s)"
    and "maps_removed (rerender (handler ClickToggle s)) = Suc (maps_removed s)"
    and "mapboxToken (rerender (handler ClickToggle s)) = mapboxToken s"
proof -
  note a = reachable_map_view [OF assms]
  let ?t = "toggleSpin s"
  have m: "map_current s \<noteq> None" using a(6) by auto
  have f: "mapboxToken ?t = mapboxToken s" "mapError ?t = []" "has_cleanup ?t"
    "map_current ?t = map_current s" "maps_removed ?t = maps_removed s"
    "maps_created ?t = maps_created s" "last_deps ?t \<noteq> Some (deps ?t)"
    "isSpinning ?t = (\<not> isSpinning s)"
    using a by (simp_all add: toggleSpin_def toast_add_def deps_def)
  have e: "rerender ?t = commit ?t"
    using a f by (intro rerender_after_effect) simp_all
  show "\<not> userInteracting (rerender (handler ClickToggle s))"
    using a f by (simp add: e) (intro commit_restarts, simp_all)
  show "isSpinning (rerender (handler ClickToggle s)) = (\<not> isSpinning s)"
    by (simp add: e commit_frame f)
  show "maps_created (rerender (handler ClickToggle s)) = Suc (maps_created s)"
    using a m f(7) by (simp add: e commit_counts f(1-6))
  show "maps_removed (rerender (handler ClickToggle s)) = Suc (maps_removed s)"
    using a m f(7) by (simp add: e commit_counts f(1-6))
  show "mapboxToken (rerender (handler ClickToggle s)) = mapboxToken s"
    by (simp add: e commit_frame f)
qed

subsection \<open>Rotation ticks\<close>

text \<open>
  Claim C1. On a tick (a call of \<open>spinGlobe\<close> with a map instance in place), a pan is
  issued if and only if rotation is on, the user is not interacting and the zoom is below
  5. The pan is one \<open>easeTo\<close> of 1000 ms with the identity easing, whose target is the
  current centre moved west by the angular speed of the specification: 1.5 degrees up to
  zoom 3, 1.5 scaled by \<open>(5 - z) / (5 - 3)\<close> between 3 and 5; from zoom 5 on nothing moves.
\<close>

theorem spinGlobe_tick:
  assumes "map_current s = Some m"
  shows "(new_calls s (spinGlobe s) \<noteq> [] \<longleftrightarrow>
            isSpinning s \<and> \<not> userInteracting s \<and> zoom m < 5)
       \<and> new_calls s (spinGlobe s) =
           (if isSpinning s \<and> \<not> userInteracting s \<and> zoom m < 5
            then [EaseTo \<lparr>to_center = \<lparr>lng = lng (center m) - spec_rate (zoom m),
                                       lat = lat (center m)\<rparr>,
                          to_zoom = None, to_pitch = None, duration = 1000,
                          easing = Some (\<lambda>n. n)\<rparr>]
            else [])
       \<and> lng_displacement s (spinGlobe s) =
           (if isSpinning s \<and> \<not> userInteracting s then spec_rate (zoom m) else 0)
       \<and> spec_rate (zoom m) =
           (if zoom m \<le> 3 then 1.5
            else if zoom m < 5 then 1.5 * ((5 - zoom m) / (5 - 3))
            else 0)"
  using assms
  by (simp add: new_calls_def lng_displacement_def spec_rate_def spin_defs map_defs Let_def)

theorem spinGlobe_tick_witness:
  "map_current (ready_at_zoom 4) \<noteq> None
   \<and> new_calls (ready_at_zoom 4) (spinGlobe (ready_at_zoom 4)) =
       [EaseTo \<lparr>to_center = \<lparr>lng = 27.75, lat = 15\<rparr>, to_zoom = None, to_pitch = None,
                duration = 1000, easing = Some (\<lambda>n. n)\<rparr>]
   \<and> lng_displacement (ready_at_zoom 4) (spinGlobe (ready_at_zoom 4)) = 0.75"
proof -
  have m: "map_current (ready_at_zoom 4) = Some (the (map_current (ready_at_zoom 4)))"
    by (simp add: ready_at_zoom_def loaded_def with_map_def on_load_def toast_add_def react_defs
        string_defs spin_defs map_defs Let_def)
  have z: "zoom (the (map_current (ready_at_zoom 4))) = 4"
    and c: "center (the (map_current (ready_at_zoom 4))) = \<lparr>lng = 28.5, lat = 15\<rparr>"
    and f: "isSpinning (ready_at_zoom 4)" "\<not> userInteracting (ready_at_zoom 4)"
    by (simp_all add: ready_at_zoom_def loaded_def with_map_def on_load_def toast_add_def react_defs
        string_defs spin_defs map_defs Let_def)
  have ne: "map_current (ready_at_zoom 4) \<noteq> None"
    using m by (metis option.distinct(1))
  show ?thesis
    using spinGlobe_tick [OF m] ne
    by (simp add: z c f spec_rate_def)
qed

subsection \<open>Submitting a token\<close>

text \<open>
  Claim C2. A candidate that is not empty after trimming but does not start with \<open>pk.\<close>
  is written to the store by the form's handler, before any format check (no error is set
  when the handler returns); the render that follows runs the effect of the map surface,
  which sets the invalid-format message, so the error view is shown; no map instance is
  created and the library's access token is not set.
\<close>

theorem submit_malformed_token:
  assumes "awaiting_token s" and "trim c \<noteq> []" and "\<not> startsWith ''pk.'' c"
  shows "localStorage (handleSubmit (setToken c s)) = Some c
       \<and> mapError (handleSubmit (setToken c s)) = []
       \<and> localStorage (submitToken c s) = Some c
       \<and> mapError (submitToken c s) = msg_invalid_format
       \<and> Index_render (submitToken c s) = MapErrorView msg_invalid_format
       \<and> map_current (submitToken c s) = None
       \<and> maps_created (submitToken c s) = maps_created s
       \<and> accessToken (submitToken c s) = accessToken s"
proof -
  have c: "c \<noteq> []" using assms(2) by (rule trim_nonempty)
  have t: "mapboxToken s = []" using assms(1) by (rule awaiting_token_empty)
  have e: "[] \<noteq> msg_invalid_format" using msg_invalid_format_nonempty by simp
  show ?thesis
    using assms c t e
    by (simp add: gate_defs rerender_def commit_def deps_def Let_def MapContainer_render_def
        Index_render_def MapContainer_useEffect_def msg_invalid_format_nonempty)
qed

theorem submit_malformed_token_witness:
  "awaiting_token (page_load None) \<and> trim ''abc123'' \<noteq> [] \<and> \<not> startsWith ''pk.'' ''abc123''
   \<and> localStorage (submitToken ''abc123'' (page_load None)) = Some ''abc123''
   \<and> Index_render (submitToken ''abc123'' (page_load None)) = MapErrorView msg_invalid_format
   \<and> maps_created (submitToken ''abc123'' (page_load None)) = 0"
proof -
  have a: "awaiting_token (page_load None)"
    by (simp add: awaiting_token_def react_defs)
  have t: "trim ''abc123'' \<noteq> []" by (simp add: string_defs)
  have p: "\<not> startsWith ''pk.'' ''abc123''" by (simp add: string_defs)
  have m: "maps_created (page_load None) = 0" by (simp add: react_defs)
  show ?thesis
    using submit_malformed_token [OF a t p] a t p m by simp
qed

text \<open>
  Claim C5. While the application waits for a token, submitting a candidate that is empty
  after trimming only adds the error notification: the store and the token of \<open>Index\<close>
  are unchanged and the token form stays. Submitting any candidate that is not empty
  after trimming stores the candidate and makes \<open>Index\<close> render the map surface, whatever
  else the candidate looks like.
\<close>

theorem submitToken_gate:
  assumes "awaiting_token s"
  shows "(trim c = [] \<longrightarrow>
            handleSubmit (setToken c s) =
              toast_add (Error ''Please enter a valid Mapbox token'') (setToken c s)
          \<and> submitToken c s = handleSubmit (setToken c s)
          \<and> localStorage (submitToken c s) = localStorage s
          \<and> mapboxToken (submitToken c s) = mapboxToken s
          \<and> awaiting_token (submitToken c s)
          \<and> Index_render (submitToken c s) = TokenInputView)
       \<and> (trim c \<noteq> [] \<longrightarrow>
            localStorage (submitToken c s) = Some c
          \<and> mapboxToken (submitToken c s) = c
          \<and> Index_render (submitToken c s) = MapContainer_render (submitToken c s)
          \<and> Index_render (submitToken c s) \<noteq> TokenInputView
          \<and> toasts (submitToken c s) =
              toasts s @ [Success ''Mapbox token saved! Initializing Mav Map...''])"
proof (intro conjI impI)
  assume e: "trim c = []"
  show "handleSubmit (setToken c s) =
      toast_add (Error ''Please enter a valid Mapbox token'') (setToken c s)"
    using e by (simp add: handleSubmit_def setToken_def)
  have t: "mapboxToken s = []"
    using assms by (rule awaiting_token_empty)
  show r: "submitToken c s = handleSubmit (setToken c s)"
    using e t by (simp add: gate_defs rerender_def commit_def)
  show "localStorage (submitToken c s) = localStorage s"
    using e by (simp add: r) (simp add: gate_defs)
  show "mapboxToken (submitToken c s) = mapboxToken s"
    using e by (simp add: r) (simp add: gate_defs)
  show "awaiting_token (submitToken c s)"
    using e assms by (simp add: r) (simp add: gate_defs)
  show "Index_render (submitToken c s) = TokenInputView"
    using e t by (simp add: r) (simp add: gate_defs Index_render_def)
next
  assume n: "trim c \<noteq> []"
  then have c: "c \<noteq> []" by (rule trim_nonempty)
  have h: "mapboxToken (handleSubmit (setToken c s)) = c"
    "localStorage (handleSubmit (setToken c s)) = Some c"
    "toasts (handleSubmit (setToken c s)) =
       toasts s @ [Success ''Mapbox token saved! Initializing Mav Map...'']"
    using n by (simp_all add: gate_defs)
  show "localStorage (submitToken c s) = Some c"
    by (simp add: submitToken_def rerender_def commit_frame h)
  show m: "mapboxToken (submitToken c s) = c"
    by (simp add: submitToken_def rerender_def commit_frame h)
  show "Index_render (submitToken c s) = MapContainer_render (submitToken c s)"
    using m c by (simp add: Index_render_def)
  show "Index_render (submitToken c s) \<noteq> TokenInputView"
    using m c by (simp add: Index_render_def MapContainer_render_def)
  show "toasts (submitToken c s) =
      toasts s @ [Success ''Mapbox token saved! Initializing Mav Map...'']"
    by (simp add: submitToken_def rerender_def commit_frame h)
qed


theorem submitToken_gate_witness:
  "awaiting_token (page_load None)
   \<and> trim ''  '' = []
   \<and> localStorage (submitToken ''  '' (page_load None)) = None
   \<and> Index_render (submitToken ''  '' (page_load None)) = TokenInputView
   \<and> trim ''pk.abc'' \<noteq> []
   \<and> localStorage (submitToken ''pk.abc'' (page_load None)) = Some ''pk.abc''
   \<and> Index_render (submitToken ''pk.abc'' (page_load None)) = MapView"
proof -
  have a: "awaiting_token (page_load None)"
    by (simp add: awaiting_token_def react_defs)
  have e: "trim ''  '' = []" by (simp add: string_defs)
  have n: "trim ''pk.abc'' \<noteq> []" by (simp add: string_defs)
  have l: "localStorage (page_load None) = None" by (simp add: react_defs)
  have v: "MapContainer_render (submitToken ''pk.abc'' (page_load None)) = MapView"
    by (simp add: gate_defs react_defs string_defs spinGlobe_frame Let_def)
  have t: "mapboxToken (page_load None) = []" by (simp add: react_defs)
  show ?thesis
    using submitToken_gate [OF a, of "''  ''"] submitToken_gate [OF a, of "''pk.abc''"] a e n l v
    by (simp add: toast_add_def setToken_def Index_render_def t)
qed

lemma submitToken_raw:
  assumes "trim c \<noteq> []"
  shows "localStorage (submitToken c s) = Some c" and "mapboxToken (submitToken c s) = c"
  using assms by (simp_all add: submitToken_def rerender_def commit_frame)
    (simp_all add: gate_defs)

text \<open>
  Claim C10. What is stored and passed on is the candidate as typed, not its trimmed
  form; and there is a candidate whose trimmed form starts with \<open>pk.\<close> and which carries
  leading white space, so that it is accepted, stored as typed and then fails the prefix
  check of the map surface.
\<close>

theorem raw_token_persisted:
  "(\<forall>s c. awaiting_token s \<and> trim c \<noteq> [] \<longrightarrow>
       localStorage (submitToken c s) = Some c \<and> mapboxToken (submitToken c s) = c)
   \<and> (\<exists>c. startsWith ''pk.'' (trim c) \<and> \<not> startsWith ''pk.'' c \<and> is_whitespace (hd c)
          \<and> localStorage (submitToken c (page_load None)) = Some c
          \<and> mapboxToken (submitToken c (page_load None)) = c
          \<and> Index_render (submitToken c (page_load None)) = MapErrorView msg_invalid_format
          \<and> map_current (submitToken c (page_load None)) = None)"
proof (intro conjI allI impI)
  fix s c
  assume "awaiting_token s \<and> trim c \<noteq> []"
  then show "localStorage (submitToken c s) = Some c" "mapboxToken (submitToken c s) = c"
    by (simp_all add: submitToken_raw)
next
  have "startsWith ''pk.'' (trim '' pk.abc'')" "\<not> startsWith ''pk.'' '' pk.abc''"
    "is_whitespace (hd '' pk.abc'')"
    by (simp_all add: string_defs)
  moreover have "localStorage (submitToken '' pk.abc'' (page_load None)) = Some '' pk.abc''"
    "mapboxToken (submitToken '' pk.abc'' (page_load None)) = '' pk.abc''"
    by (simp_all add: submitToken_raw string_defs)
  moreover have "Index_render (submitToken '' pk.abc'' (page_load None)) =
      MapErrorView msg_invalid_format"
    "map_current (submitToken '' pk.abc'' (page_load None)) = None"
    by (simp_all add: gate_defs react_defs string_defs msg_invalid_format_nonempty
        msg_invalid_format_nonempty [symmetric] Let_def)
  ultimately show "\<exists>c. startsWith ''pk.'' (trim c) \<and> \<not> startsWith ''pk.'' c \<and> is_whitespace (hd c)
          \<and> localStorage (submitToken c (page_load None)) = Some c
          \<and> mapboxToken (submitToken c (page_load None)) = c
          \<and> Index_render (submitToken c (page_load None)) = MapErrorView msg_invalid_format
          \<and> map_current (submitToken c (page_load None)) = None"
    by blast
qed

theorem raw_token_persisted_witness:
  "awaiting_token (page_load None) \<and> trim '' pk.abc '' = ''pk.abc''
   \<and> localStorage (submitToken '' pk.abc '' (page_load None)) = Some '' pk.abc ''
   \<and> mapboxToken (submitToken '' pk.abc '' (page_load None)) = '' pk.abc ''"
proof -
  have a: "awaiting_token (page_load None)"
    by (simp add: awaiting_token_def react_defs)
  have t: "trim '' pk.abc '' = ''pk.abc''" by (simp add: string_defs)
  from raw_token_persisted
  have "awaiting_token (page_load None) \<and> trim '' pk.abc '' \<noteq> [] \<longrightarrow>
       localStorage (submitToken '' pk.abc '' (page_load None)) = Some '' pk.abc ''
       \<and> mapboxToken (submitToken '' pk.abc '' (page_load None)) = '' pk.abc ''"
    by blast
  with a t show ?thesis by simp
qed

subsection \<open>Search\<close>

lemma handleSearch_found:
  assumes "map_current s = Some m" and "trim (searchQuery s) \<noteq> []" and "mapboxToken s \<noteq> []"
  shows "map_current (handleSearch (Resolved (Some (f # fs))) s) =
     Some (addMarker (search_marker f)
       (flyTo \<lparr>to_center = feature_center f, to_zoom = Some 12, to_pitch = None,
               duration = 2000, easing = None\<rparr> m))"
    and "searchQuery (handleSearch (Resolved (Some (f # fs))) s) = searchQuery s"
    and "mapboxToken (handleSearch (Resolved (Some (f # fs))) s) = mapboxToken s"
    and "toasts (handleSearch (Resolved (Some (f # fs))) s) =
           toasts s @ [Success (''Found: '' @ place_name f)]"
  using assms by (simp_all add: search_defs search_marker_def)

text \<open>
  Claim C3. With a map instance in place, a query that is not blank and a token, a
  response with at least one candidate makes the handler command one \<open>flyTo\<close> to the
  first candidate's coordinates at zoom 12 over 2000 ms and add one marker at those
  coordinates whose popup holds the candidate's label. Markers accumulate: after a second
  successful search the earlier markers are all still there, followed by the two new
  ones, so the count has grown by 2.
\<close>

theorem search_success:
  assumes "map_current s = Some m" and "trim (searchQuery s) \<noteq> []" and "mapboxToken s \<noteq> []"
  shows "new_calls s (handleSearch (Resolved (Some (f # fs))) s) =
           [FlyTo \<lparr>to_center = feature_center f, to_zoom = Some 12, to_pitch = None,
                   duration = 2000, easing = None\<rparr>]
       \<and> markers_of (handleSearch (Resolved (Some (f # fs))) s) =
           markers m @ [\<lparr>marker_color = ''#0ea5e9'', marker_lnglat = feature_center f,
              popup_html = ''<div class='' @ [CHR 0x22] @ ''p-2 text-sm font-medium''
                @ [CHR 0x22] @ ''>'' @ place_name f @ ''</div>''\<rparr>]
       \<and> (trim q \<noteq> [] \<longrightarrow>
            markers_of (handleSearch (Resolved (Some (g # gs)))
                (setSearchQuery q (handleSearch (Resolved (Some (f # fs))) s))) =
              markers m @ [search_marker f, search_marker g]
          \<and> length (markers_of (handleSearch (Resolved (Some (g # gs)))
                (setSearchQuery q (handleSearch (Resolved (Some (f # fs))) s)))) =
              length (markers_of s) + 2)"
proof (intro conjI impI)
  let ?s1 = "handleSearch (Resolved (Some (f # fs))) s"
  let ?m1 = "addMarker (search_marker f)
       (flyTo \<lparr>to_center = feature_center f, to_zoom = Some 12, to_pitch = None,
               duration = 2000, easing = None\<rparr> m)"
  note h = handleSearch_found [OF assms]
  show "new_calls s ?s1 = [FlyTo \<lparr>to_center = feature_center f, to_zoom = Some 12,
      to_pitch = None, duration = 2000, easing = None\<rparr>]"
    using assms(1) by (simp add: new_calls_def h(1) map_defs)
  show "markers_of ?s1 = markers m @ [\<lparr>marker_color = ''#0ea5e9'',
      marker_lnglat = feature_center f,
      popup_html = ''<div class='' @ [CHR 0x22] @ ''p-2 text-sm font-medium''
        @ [CHR 0x22] @ ''>'' @ place_name f @ ''</div>''\<rparr>]"
    by (simp add: markers_of_def h(1) map_defs search_marker_def)
  assume q: "trim q \<noteq> []"
  let ?s2 = "setSearchQuery q ?s1"
  have a: "map_current ?s2 = Some ?m1" "trim (searchQuery ?s2) \<noteq> []" "mapboxToken ?s2 \<noteq> []"
    using q assms(3) by (simp_all add: setSearchQuery_def h)
  show two: "markers_of (handleSearch (Resolved (Some (g # gs))) ?s2) =
      markers m @ [search_marker f, search_marker g]"
    by (simp add: markers_of_def handleSearch_found(1) [OF a] map_defs)
  show "length (markers_of (handleSearch (Resolved (Some (g # gs))) ?s2)) =
      length (markers_of s) + 2"
    using assms(1) by (simp add: two) (simp add: markers_of_def)
qed

theorem search_success_witness:
  "map_current (ready_with_query ''Paris'') \<noteq> None
   \<and> trim (searchQuery (ready_with_query ''Paris'')) \<noteq> []
   \<and> mapboxToken (ready_with_query ''Paris'') \<noteq> []
   \<and> new_calls (ready_with_query ''Paris'')
        (handleSearch (Resolved (Some [paris])) (ready_with_query ''Paris'')) =
       [FlyTo \<lparr>to_center = \<lparr>lng = 2.35, lat = 48.85\<rparr>, to_zoom = Some 12, to_pitch = None,
               duration = 2000, easing = None\<rparr>]
   \<and> map (\<lambda>k. (marker_lnglat k, popup_html k))
        (markers_of (handleSearch (Resolved (Some [paris])) (ready_with_query ''Paris''))) =
       [(\<lparr>lng = 2.35, lat = 48.85\<rparr>,
         ''<div class='' @ [CHR 0x22] @ ''p-2 text-sm font-medium'' @ [CHR 0x22]
           @ ''>Paris, France</div>'')]
   \<and> length (markers_of (handleSearch (Resolved (Some [rome]))
        (setSearchQuery ''Rome''
          (handleSearch (Resolved (Some [paris])) (ready_with_query ''Paris''))))) = 2"
proof -
  let ?s = "ready_with_query ''Paris''"
  have m: "map_current ?s = Some (the (map_current ?s))"
    and t: "trim (searchQuery ?s) \<noteq> []" and k: "mapboxToken ?s \<noteq> []"
    and e: "markers (the (map_current ?s)) = []" "markers_of ?s = []"
    by (simp_all add: ready_with_query_def loaded_def setSearchQuery_def on_load_def toast_add_def
        react_defs string_defs spin_defs map_defs markers_of_def Let_def)
  have ne: "map_current ?s \<noteq> None" using m by (metis option.distinct(1))
  have r: "trim ''Rome'' \<noteq> []" by (simp add: string_defs)
  show ?thesis
    using search_success [OF m t k, of paris "[]" "''Rome''" rome "[]"] ne t k r
    by (simp add: e paris_def)
qed

text \<open>
  Claim C4. With a blank query or without a token, \<open>handleSearch\<close> changes nothing: no
  request, no notification. Otherwise one request with limit 1 is issued; an empty list
  of candidates is answered with the notification "Location not found" and a failed
  \<open>fetch\<close> or \<open>json()\<close> with "Search failed", and whenever the handler ends in an error
  notification the map instance (camera and markers) is as before.
\<close>

theorem search_failure_paths:
  "(trim (searchQuery s) = [] \<or> mapboxToken s = [] \<longrightarrow> handleSearch r s = s)
   \<and> (trim (searchQuery s) \<noteq> [] \<and> mapboxToken s \<noteq> [] \<longrightarrow>
        requests (handleSearch r s) = requests s @
          [\<lparr>req_query = searchQuery s, req_access_token = mapboxToken s, req_limit = 1\<rparr>]
      \<and> toasts (handleSearch (Resolved (Some [])) s) = toasts s @ [Error ''Location not found'']
      \<and> toasts (handleSearch Rejected s) = toasts s @ [Error ''Search failed''])
   \<and> map_current (handleSearch (Resolved (Some [])) s) = map_current s
   \<and> map_current (handleSearch Rejected s) = map_current s
   \<and> ((\<exists>e. toasts (handleSearch r s) = toasts s @ [Error e]) \<longrightarrow>
        map_current (handleSearch r s) = map_current s)"
  by (auto simp: search_defs split: geocoding_result.splits option.splits list.splits)

theorem search_failure_paths_witness:
  "trim (searchQuery (ready_with_query ''   '')) = []
   \<and> handleSearch (Resolved (Some [paris])) (ready_with_query ''   '') = ready_with_query ''   ''
   \<and> trim (searchQuery (ready_with_query ''zzzzqqqq'')) \<noteq> []
   \<and> mapboxToken (ready_with_query ''zzzzqqqq'') \<noteq> []
   \<and> toasts (handleSearch (Resolved (Some [])) (ready_with_query ''zzzzqqqq'')) =
        toasts (ready_with_query ''zzzzqqqq'') @ [Error ''Location not found'']
   \<and> toasts (handleSearch Rejected (ready_with_query ''zzzzqqqq'')) =
        toasts (ready_with_query ''zzzzqqqq'') @ [Error ''Search failed'']
   \<and> map_current (handleSearch Rejected (ready_with_query ''zzzzqqqq'')) =
        map_current (ready_with_query ''zzzzqqqq'')"
proof -
  have e: "trim (searchQuery (ready_with_query ''   '')) = []"
    by (simp add: ready_with_query_def setSearchQuery_def string_defs)
  have t: "trim (searchQuery (ready_with_query ''zzzzqqqq'')) \<noteq> []"
    by (simp add: ready_with_query_def setSearchQuery_def string_defs)
  have k: "mapboxToken (ready_with_query ''zzzzqqqq'') \<noteq> []"
    by (simp add: ready_with_query_def loaded_def setSearchQuery_def on_load_def toast_add_def
        page_load_def rerender_def commit_frame Index_useEffect_def init_app_def)
  show ?thesis
    using search_failure_paths [of "ready_with_query ''   ''" "Resolved (Some [paris])"]
      search_failure_paths [of "ready_with_query ''zzzzqqqq''" Rejected] e t k
    by simp
qed

subsection \<open>The buttons of the map view\<close>




text \<open>
  The handler \<open>toggleSpin\<close> by itself flips \<open>isSpinning\<close> and, apart from the notification,
  changes nothing else.
\<close>

lemma toggleSpin_frame:
  "isSpinning (toggleSpin s) = (\<not> isSpinning s)
   \<and> userInteracting (toggleSpin s) = userInteracting s
   \<and> toggleSpin s = s\<lparr>isSpinning := \<not> isSpinning s,
        toasts := toasts s @ [Info (if isSpinning s then ''Globe rotation paused''
                                    else ''Globe rotation resumed'')]\<rparr>"
  by (simp add: toggleSpin_def toast_add_def)

text \<open>
  Claim C7 says that toggling rotation flips the rotation mode and does not alter the
  interaction flag. The flip holds, and \<open>toggleSpin\<close> assigns no interaction flag; but
  \<open>isSpinning\<close> is a dependency of the effect in whose closure the flag lives, so the render
  after the click runs the effect again and the new closure starts with
  \<open>userInteracting = false\<close>. In the state \<open>dragging\<close>, reached by loading the page under
  \<open>pk.abc\<close>, the \<open>load\<close> event and a \<open>dragstart\<close>, the map view is shown and the flag is
  true; it is still true when \<open>toggleSpin\<close> returns, and false once the click has been
  processed.
\<close>

theorem toggle_resets_interacting:
  "reachable dragging \<and> Index_render dragging = MapView
   \<and> isSpinning dragging \<and> userInteracting dragging
   \<and> userInteracting (toggleSpin dragging)
   \<and> \<not> isSpinning (rerender (handler ClickToggle dragging))
   \<and> \<not> userInteracting (rerender (handler ClickToggle dragging))"
proof -
  have v: "Index_render dragging = MapView"
    by (simp add: Index_render_def dragging_facts)
  have h: "userInteracting (toggleSpin dragging)"
    by (simp add: toggleSpin_def toast_add_def dragging_facts)
  show ?thesis
    using toggle_event_restarts(1,2) [OF reachable_dragging v] reachable_dragging v h
    by (simp add: dragging_facts)
qed

subsection \<open>Errors of the mapping engine\<close>

text \<open>
  Claim C8. The handler of the engine's \<open>error\<close> event classifies by substring: when the
  error's message contains \<open>Unauthorized\<close> or \<open>Invalid Token\<close> the error set is the
  invalid-token message, and for every other message, or none, it is the network-failure
  message. With \<open>MapContainer\<close> mounted, the render that follows shows that message in the
  error view.
\<close>

theorem on_error_classification:
  "mapError (on_error e s) =
     (if \<exists>t. e = Some t \<and> (contains t ''Unauthorized'' \<or> contains t ''Invalid Token'')
      then msg_unauthorized else msg_network)
   \<and> (mapboxToken s \<noteq> [] \<longrightarrow>
        Index_render (rerender (on_error e s)) = MapErrorView (mapError (on_error e s)))
   \<and> msg_unauthorized \<noteq> msg_network"
proof (intro conjI impI)
  show c: "mapError (on_error e s) =
     (if \<exists>t. e = Some t \<and> (contains t ''Unauthorized'' \<or> contains t ''Invalid Token'')
      then msg_unauthorized else msg_network)"
    by (cases e) (simp_all add: on_error_def contains_def includes_str_iff)
  show "msg_unauthorized \<noteq> msg_network"
    by (simp add: msg_unauthorized_def msg_network_def)
  assume t: "mapboxToken s \<noteq> []"
  let ?s = "on_error e s"
  have ne: "mapError ?s \<noteq> []"
    by (simp add: c) (simp add: msg_unauthorized_def msg_network_def)
  have k: "mapboxToken ?s = mapboxToken s"
    by (simp add: on_error_def)
  have 1: "mapError (commit ?s) = mapError ?s"
    using commit_mapError [of ?s] ne by auto
  have 2: "mapError (commit (commit ?s)) = mapError ?s"
    using commit_mapError [of "commit ?s"] ne 1 by auto
  show "Index_render (rerender ?s) = MapErrorView (mapError ?s)"
    using t ne by (simp add: rerender_def Index_render_def MapContainer_render_def 2 commit_frame k)
qed

theorem on_error_classification_witness:
  "mapboxToken (ready_at_zoom 2) \<noteq> []
   \<and> Index_render (rerender (on_error (Some ''Error: Unauthorized (401)'') (ready_at_zoom 2))) =
       MapErrorView msg_unauthorized
   \<and> Index_render (rerender (on_error (Some ''Failed to fetch'') (ready_at_zoom 2))) =
       MapErrorView msg_network
   \<and> Index_render (rerender (on_error None (ready_at_zoom 2))) = MapErrorView msg_network"
proof -
  have k: "mapboxToken (ready_at_zoom 2) \<noteq> []"
    by (simp add: ready_at_zoom_def loaded_def with_map_def on_load_def toast_add_def
        page_load_def rerender_def commit_frame Index_useEffect_def init_app_def)
  have a: "mapError (on_error (Some ''Error: Unauthorized (401)'') (ready_at_zoom 2)) = msg_unauthorized"
    and b: "mapError (on_error (Some ''Failed to fetch'') (ready_at_zoom 2)) = msg_network"
    and c: "mapError (on_error None (ready_at_zoom 2)) = msg_network"
    by (simp_all add: on_error_def string_defs)
  show ?thesis
    using on_error_classification [of "Some ''Error: Unauthorized (401)''" "ready_at_zoom 2"]
      on_error_classification [of "Some ''Failed to fetch''" "ready_at_zoom 2"]
      on_error_classification [of None "ready_at_zoom 2"] k
    by (simp only: a b c) simp
qed

subsection \<open>The life of the map instance\<close>

text \<open>
  What the dependency list of the effect makes of the instance. Loading the page with a
  stored token that starts with \<open>pk.\<close> creates one instance. From a reachable state, an
  event whose handler leaves \<open>mapboxToken\<close>, \<open>isSpinning\<close> and \<open>mapError\<close> as they were
  neither removes nor creates an instance. A render of the mounted component after one of
  the three has changed removes the current instance, when the last run of the effect
  created one, and creates a new one exactly when no error is set and the token starts
  with \<open>pk.\<close>; so does, wherever the map view is shown, a click on the rotation button.
\<close>

lemma instance_lifecycle:
  "(startsWith ''pk.'' t \<longrightarrow>
       maps_created (page_load (Some t)) = 1 \<and> maps_removed (page_load (Some t)) = 0)
   \<and> (reachable s \<and> deps (handler e s) = deps s \<longrightarrow>
       map_current (rerender (handler e s)) = map_current (handler e s)
     \<and> maps_created (rerender (handler e s)) = maps_created s
     \<and> maps_removed (rerender (handler e s)) = maps_removed s)
   \<and> (mapboxToken s \<noteq> [] \<and> last_deps s \<noteq> Some (deps s) \<longrightarrow>
       maps_removed (commit s) =
         (if has_cleanup s \<and> map_current s \<noteq> None then Suc (maps_removed s)
          else maps_removed s)
     \<and> maps_created (commit s) =
         (if mapError s = [] \<and> startsWith ''pk.'' (mapboxToken s) then Suc (maps_created s)
          else maps_created s))
   \<and> (reachable s \<and> Index_render s = MapView \<longrightarrow>
       mapboxToken (rerender (toggleSpin s)) = mapboxToken s
     \<and> maps_removed (rerender (toggleSpin s)) = Suc (maps_removed s)
     \<and> maps_created (rerender (toggleSpin s)) = Suc (maps_created s))"
proof (intro conjI impI)
  assume "startsWith ''pk.'' t"
  then show "maps_created (page_load (Some t)) = 1" "maps_removed (page_load (Some t)) = 0"
    by (rule page_load_counts)+
next
  assume "reachable s \<and> deps (handler e s) = deps s"
  then have r: "reachable s" and d: "deps (handler e s) = deps s" by simp_all
  show "map_current (rerender (handler e s)) = map_current (handler e s)"
    "maps_created (rerender (handler e s)) = maps_created s"
    "maps_removed (rerender (handler e s)) = maps_removed s"
    by (rule event_same_deps [OF r d])+
next
  assume a: "mapboxToken s \<noteq> [] \<and> last_deps s \<noteq> Some (deps s)"
  then show "maps_removed (commit s) =
         (if has_cleanup s \<and> map_current s \<noteq> None then Suc (maps_removed s)
          else maps_removed s)"
    by (simp add: commit_counts)
  from a show "maps_created (commit s) =
         (if mapError s = [] \<and> startsWith ''pk.'' (mapboxToken s) then Suc (maps_created s)
          else maps_created s)"
    by (simp add: commit_counts)
next
  assume "reachable s \<and> Index_render s = MapView"
  then have r: "reachable s" and v: "Index_render s = MapView" by simp_all
  note a = reachable_map_view [OF r v]
  let ?t = "toggleSpin s"
  have m: "map_current s \<noteq> None" using a(6) by auto
  have f: "mapboxToken ?t = mapboxToken s" "mapError ?t = []" "has_cleanup ?t"
    "map_current ?t = map_current s" "maps_removed ?t = maps_removed s"
    "maps_created ?t = maps_created s" "last_deps ?t \<noteq> Some (deps ?t)"
    using a by (simp_all add: toggleSpin_def toast_add_def deps_def)
  have e: "rerender ?t = commit ?t"
    using a f by (intro rerender_after_effect) simp_all
  show "mapboxToken (rerender ?t) = mapboxToken s"
    by (simp add: e commit_frame f)
  show "maps_removed (rerender ?t) = Suc (maps_removed s)"
    using a m f(7) by (simp add: e commit_counts f(1-6))
  show "maps_created (rerender ?t) = Suc (maps_created s)"
    using a m f(7) by (simp add: e commit_counts f(1-6))
qed

text \<open>
  Claim C9 says that the map instance is created once per session of a valid token and
  torn down only when the view unmounts or the token changes. On the loaded map under
  \<open>pk.abc\<close>, a reachable state in which the map view is shown and one instance has been
  created, one click on the rotation button leaves the token as it is, and yet the
  instance has been removed and a second one created.
\<close>

theorem toggle_recreates_instance:
  "reachable loaded \<and> Index_render loaded = MapView
   \<and> mapboxToken loaded = ''pk.abc''
   \<and> maps_created loaded = 1 \<and> maps_removed loaded = 0
   \<and> mapboxToken (rerender (handler ClickToggle loaded)) = ''pk.abc''
   \<and> maps_created (rerender (handler ClickToggle loaded)) = 2
   \<and> maps_removed (rerender (handler ClickToggle loaded)) = 1"
proof -
  have v: "Index_render loaded = MapView"
    by (simp add: Index_render_def loaded_facts loaded_container)
  show ?thesis
    using toggle_event_restarts(3-5) [OF reachable_loaded v] reachable_loaded v
    by (simp add: loaded_facts)
qed

end
